theory Spec2Isabelle
  imports Main "HOL-Library.Word"
begin

section \<open>JavaScript strings\<close>

text \<open>
  A JavaScript string is a sequence of UTF-16 code units. \<open>str\<close> embeds an ASCII
  literal. \<open>trim\<close> is \<^verbatim>\<open>String.prototype.trim\<close>: it removes the ECMAScript
  WhiteSpace and LineTerminator code points (all of them in the basic plane) from both
  ends. \<open>js_split\<close> is \<^verbatim>\<open>String.prototype.split\<close> with a one-unit separator: every
  occurrence of the separator ends a part, so the result is never empty and
  \<^verbatim>\<open>"a  b".split(' ')\<close> is \<^verbatim>\<open>["a", "", "b"]\<close>.
\<close>

type_synonym jsstring = "16 word list"

definition str :: "string \<Rightarrow> jsstring" where
  "str s = map (\<lambda>c. of_char c) s"

definition isWhiteSpace :: "16 word \<Rightarrow> bool" where
  "isWhiteSpace c \<longleftrightarrow> c \<in> set [0x9, 0xA, 0xB, 0xC, 0xD, 0x20, 0xA0, 0x1680,
     0x2000, 0x2001, 0x2002, 0x2003, 0x2004, 0x2005, 0x2006, 0x2007, 0x2008, 0x2009, 0x200A,
     0x2028, 0x2029, 0x202F, 0x205F, 0x3000, 0xFEFF]"

definition trim :: "jsstring \<Rightarrow> jsstring" where
  "trim s = rev (dropWhile isWhiteSpace (rev (dropWhile isWhiteSpace s)))"

fun js_split :: "'a \<Rightarrow> 'a list \<Rightarrow> 'a list list" where
  "js_split sep [] = [[]]"
| "js_split sep (c # cs) =
     (if c = sep then [] # js_split sep cs
      else (case js_split sep cs of [] \<Rightarrow> [[c]] | p # ps \<Rightarrow> (c # p) # ps))"

definition space :: "16 word" where
  "space = 0x20"

section \<open>Errors and responses\<close>

text \<open>
  The messages of the service are Vietnamese literals; each is one constructor here:
  \<^item> \<open>MsgUserNotFound\<close>: 'Khong tim thay nguoi dung' (user not found);
  \<^item> \<open>MsgEmailInUse\<close>: 'Email da duoc su dung' (email already in use);
  \<^item> \<open>MsgUsernameInUse\<close>: 'Ten dang nhap da duoc su dung' (login name already in use);
  \<^item> \<open>MsgCreated\<close>, \<open>MsgFound\<close>, \<open>MsgUpdated\<close>, \<open>MsgDeleted\<close>: the success messages of
    create, findOne, update and remove.
\<close>

datatype message =
  MsgUserNotFound | MsgEmailInUse | MsgUsernameInUse
  | MsgCreated | MsgFound | MsgUpdated | MsgDeleted

text \<open>
  The exceptions a caller can see. \<open>QueryFailedError\<close> is what the store raises when a
  write violates one of its unique constraints; \<open>ForbiddenException\<close> is what the framework
  raises when a guard returns false.
\<close>

datatype error =
  UnauthorizedException
  | ForbiddenException
  | NotFoundException message
  | ConflictException message
  | QueryFailedError

text \<open>
  Modelled from the spec: \<^verbatim>\<open>ResponseUtil.success(data, message)\<close> and the \<^verbatim>\<open>IResponse\<close>
  interface are not among the sources; a response carries the data and the message.
\<close>

datatype 'a IResponse = success (data: 'a) (message: message)

section \<open>Auth Guard\<close>

text \<open>
  \<^verbatim>\<open>JwtService.verifyAsync(token, {secret})\<close> is a library call: it either returns the decoded
  payload or throws one of the library's errors. It is a parameter of the model, with the
  configured secret \<^verbatim>\<open>process.env.JWT_SECRET\<close> (possibly unset).
\<close>

datatype jwt_error = TokenExpiredError | JsonWebTokenError | NotBeforeError

record 'p jwt_env =
  JWT_SECRET :: "jsstring option"
  verifyAsync :: "jsstring \<Rightarrow> jsstring option \<Rightarrow> jwt_error + 'p"

record 'p request =
  headers :: "jsstring \<rightharpoonup> jsstring"
  user :: "'p option"

text \<open>
  \<^verbatim>\<open>const [type, token] = str.split(' ')\<close>: the first two parts, each \<^verbatim>\<open>undefined\<close> when
  the array is too short.
\<close>

definition extractTokenFromHeader :: "'p request \<Rightarrow> error + jsstring option" where
  "extractTokenFromHeader request =
     (case headers request (str ''authorization'') of
        None \<Rightarrow> Inl UnauthorizedException
      | Some s \<Rightarrow>
          if s = [] then Inl UnauthorizedException
          else (case js_split space s of
                  [] \<Rightarrow> Inr None
                | [type] \<Rightarrow> Inr None
                | type # token # _ \<Rightarrow>
                    Inr (if type = str ''Bearer'' then Some token else None)))"

definition canActivate :: "'p jwt_env \<Rightarrow> 'p request \<Rightarrow> error + (bool \<times> 'p request)" where
  "canActivate env request =
     (case extractTokenFromHeader request of
        Inl e \<Rightarrow> Inl e
      | Inr None \<Rightarrow> Inl UnauthorizedException
      | Inr (Some token) \<Rightarrow>
          if token = [] then Inl UnauthorizedException
          else (case verifyAsync env token (JWT_SECRET env) of
                  Inl _ \<Rightarrow> Inl UnauthorizedException
                | Inr payload \<Rightarrow> Inr (True, request\<lparr>user := Some payload\<rparr>)))"

text \<open>
  The framework runs the guard before the route handler: an exception of the guard is the
  response and the handler does not run; otherwise the handler runs on the request the
  guard has written to.
\<close>

definition guarded :: "'p jwt_env \<Rightarrow> ('p request \<Rightarrow> 'r) \<Rightarrow> 'p request \<Rightarrow> error + 'r" where
  "guarded env handler request =
     (case canActivate env request of
        Inl e \<Rightarrow> Inl e
      | Inr (ok, request') \<Rightarrow> if ok then Inr (handler request') else Inl ForbiddenException)"

section \<open>User Service\<close>

subsection \<open>Data\<close>

text \<open>
  Modelled from the spec: the DTO class \<^verbatim>\<open>CreateUserDto\<close>, the entity \<^verbatim>\<open>User\<close> and
  \<^verbatim>\<open>UserMapper\<close> are not among the sources. A user is an identity record with an id, an
  email, a username, a password and profile fields; the profile fields are kept by name.
  An update receives \<^verbatim>\<open>Partial<CreateUserDto>\<close>: every field may be missing, and a
  missing field (\<^verbatim>\<open>undefined\<close>) and the empty string are the two falsy values a field
  can have. The response DTO is the record minus the password field.
\<close>

record createUserDto =
  email :: jsstring
  username :: jsstring
  password :: jsstring
  profile :: "jsstring \<rightharpoonup> jsstring"

record User = createUserDto +
  userId :: jsstring

record partialCreateUserDto =
  email_opt :: "jsstring option"
  username_opt :: "jsstring option"
  password_opt :: "jsstring option"
  profile_opt :: "jsstring \<rightharpoonup> jsstring"

record userResponseDto =
  resp_userId :: jsstring
  resp_email :: jsstring
  resp_username :: jsstring
  resp_profile :: "jsstring \<rightharpoonup> jsstring"

text \<open>
  Modelled from the spec: \<^verbatim>\<open>UserMapper.toEntity\<close> builds the entity from the DTO's fields (its
  id is assigned by the store on insert), and \<^verbatim>\<open>UserMapper.toResponseDto\<close> returns the record
  minus the password field.
\<close>

definition toEntity :: "createUserDto \<Rightarrow> createUserDto" where
  "toEntity dto = dto"

definition toResponseDto :: "User \<Rightarrow> userResponseDto" where
  "toResponseDto u =
     \<lparr>resp_userId = userId u, resp_email = email u, resp_username = username u,
      resp_profile = profile u\<rparr>"

subsection \<open>The repository\<close>

text \<open>
  The \<^verbatim>\<open>users\<close> table is the list of its rows, and \<^verbatim>\<open>findOne({where: ...})\<close> returns the
  first matching row or null. Strings are compared exactly.
\<close>

type_synonym repository = "User list"

definition store_ok :: "repository \<Rightarrow> bool" where
  "store_ok s \<longleftrightarrow>
     distinct (map userId s) \<and> distinct (map email s) \<and> distinct (map username s)"

definition repository_findOne :: "(User \<Rightarrow> bool) \<Rightarrow> repository \<Rightarrow> User option" where
  "repository_findOne wh s = find wh s"

text \<open>
  Modelled from the spec: the entity declaration is not among the sources; the table has
  unique constraints on \<^verbatim>\<open>email\<close> and \<^verbatim>\<open>username\<close>, and \<^verbatim>\<open>id\<close> is its key. A write that
  would break one of them raises \<open>QueryFailedError\<close> and changes nothing.
  \<^verbatim>\<open>Repository.save\<close> inserts an entity that has no id yet, the store generating the id
  (\<open>repository_save_new\<close>, the generated id being an input of the model), and writes an
  entity that has an id over the row with that id, or inserts it when there is no such row
  (\<open>repository_save\<close>). \<^verbatim>\<open>Repository.remove\<close> deletes the row with the entity's id.
\<close>

definition repository_save_new ::
  "jsstring \<Rightarrow> repository \<Rightarrow> createUserDto \<Rightarrow> error + (User \<times> repository)" where
  "repository_save_new newId s e =
     (let u = \<lparr>email = email e, username = username e, password = password e,
               profile = profile e, userId = newId\<rparr>
      in if list_ex (\<lambda>r. userId r = newId \<or> email r = email e \<or> username r = username e) s
         then Inl QueryFailedError
         else Inr (u, s @ [u]))"

definition repository_save :: "repository \<Rightarrow> User \<Rightarrow> error + (User \<times> repository)" where
  "repository_save s u =
     (if list_ex (\<lambda>r. userId r \<noteq> userId u \<and> (email r = email u \<or> username r = username u)) s
      then Inl QueryFailedError
      else if list_ex (\<lambda>r. userId r = userId u) s
      then Inr (u, map (\<lambda>r. if userId r = userId u then u else r) s)
      else Inr (u, s @ [u]))"

definition repository_remove :: "repository \<Rightarrow> User \<Rightarrow> repository" where
  "repository_remove s u = filter (\<lambda>r. userId r \<noteq> userId u) s"

subsection \<open>The environment of one call\<close>

text \<open>
  \<^verbatim>\<open>bcrypt.genSalt(rounds)\<close> (random) and \<^verbatim>\<open>bcrypt.hash(password, salt)\<close> are library calls,
  and the id of a new row is generated by the store: the three are parameters of the model.
\<close>

record service_env =
  genSalt :: "nat \<Rightarrow> jsstring"
  bcrypt_hash :: "jsstring \<Rightarrow> jsstring \<Rightarrow> jsstring"
  generatedId :: jsstring

definition SALT_ROUNDS :: nat where
  "SALT_ROUNDS = 10"

definition hashPassword :: "service_env \<Rightarrow> jsstring \<Rightarrow> jsstring" where
  "hashPassword env pw = (let salt = genSalt env SALT_ROUNDS in bcrypt_hash env pw salt)"

subsection \<open>Lookups\<close>

definition findByEmail :: "repository \<Rightarrow> jsstring \<Rightarrow> User option" where
  "findByEmail s e = repository_findOne (\<lambda>r. email r = e) s"

definition findByUsername :: "repository \<Rightarrow> jsstring \<Rightarrow> User option" where
  "findByUsername s n = repository_findOne (\<lambda>r. username r = n) s"

definition findUserById :: "repository \<Rightarrow> jsstring \<Rightarrow> error + User" where
  "findUserById s i =
     (case repository_findOne (\<lambda>r. userId r = i) s of
        None \<Rightarrow> Inl (NotFoundException MsgUserNotFound)
      | Some u \<Rightarrow> Inr u)"

definition findOne :: "repository \<Rightarrow> jsstring \<Rightarrow> error + userResponseDto IResponse" where
  "findOne s i =
     (case findUserById s i of
        Inl e \<Rightarrow> Inl e
      | Inr u \<Rightarrow> Inr (success (toResponseDto u) MsgFound))"

subsection \<open>create\<close>

definition validateUniqueConstraints :: "repository \<Rightarrow> createUserDto \<Rightarrow> error + unit" where
  "validateUniqueConstraints s dto =
     (let existingEmail = findByEmail s (email dto);
          existingUsername = findByUsername s (username dto)
      in if existingEmail \<noteq> None then Inl (ConflictException MsgEmailInUse)
         else if existingUsername \<noteq> None then Inl (ConflictException MsgUsernameInUse)
         else Inr ())"

text \<open>
  \<open>create_persist\<close> is the part of \<^verbatim>\<open>create\<close> after the awaited uniqueness check: hash,
  map to an entity, save, answer. The store it writes to is the store at that moment.
\<close>

definition create_persist ::
  "service_env \<Rightarrow> repository \<Rightarrow> createUserDto
     \<Rightarrow> (error + userResponseDto IResponse) \<times> repository" where
  "create_persist env s dto =
     (let hashedPassword = hashPassword env (password dto);
          entity = toEntity (dto\<lparr>password := hashedPassword\<rparr>)
      in case repository_save_new (generatedId env) s entity of
           Inl e \<Rightarrow> (Inl e, s)
         | Inr (savedUser, s') \<Rightarrow> (Inr (success (toResponseDto savedUser) MsgCreated), s'))"

definition create ::
  "service_env \<Rightarrow> repository \<Rightarrow> createUserDto
     \<Rightarrow> (error + userResponseDto IResponse) \<times> repository" where
  "create env s createUserDto0 =
     (let dto = createUserDto0\<lparr>username := trim (username createUserDto0)\<rparr>;
          dto = dto\<lparr>password := trim (password dto)\<rparr>
      in case validateUniqueConstraints s dto of
           Inl e \<Rightarrow> (Inl e, s)
         | Inr _ \<Rightarrow> create_persist env s dto)"

subsection \<open>update\<close>

definition validateUpdateConstraints ::
  "repository \<Rightarrow> User \<Rightarrow> partialCreateUserDto \<Rightarrow> error + unit" where
  "validateUpdateConstraints s u updateData =
     (let emailCheck =
            (case email_opt updateData of
               None \<Rightarrow> Inr ()
             | Some e \<Rightarrow>
                 if e \<noteq> [] \<and> e \<noteq> email u \<and> findByEmail s e \<noteq> None
                 then Inl (ConflictException MsgEmailInUse)
                 else Inr ())
      in case emailCheck of
           Inl err \<Rightarrow> Inl err
         | Inr _ \<Rightarrow>
             (case username_opt updateData of
                None \<Rightarrow> Inr ()
              | Some n \<Rightarrow>
                  if n \<noteq> [] \<and> n \<noteq> username u \<and> findByUsername s n \<noteq> None
                  then Inl (ConflictException MsgUsernameInUse)
                  else Inr ()))"

text \<open>
  \<^verbatim>\<open>Object.assign(user, updateData)\<close> copies every property that \<^verbatim>\<open>updateData\<close> has onto
  the user and leaves the others.
\<close>

definition assign :: "User \<Rightarrow> partialCreateUserDto \<Rightarrow> User" where
  "assign u d =
     u\<lparr>email := (case email_opt d of None \<Rightarrow> email u | Some e \<Rightarrow> e),
       username := (case username_opt d of None \<Rightarrow> username u | Some n \<Rightarrow> n),
       password := (case password_opt d of None \<Rightarrow> password u | Some p \<Rightarrow> p),
       profile := profile u ++ profile_opt d\<rparr>"

definition updateUserData ::
  "service_env \<Rightarrow> repository \<Rightarrow> User \<Rightarrow> partialCreateUserDto \<Rightarrow> error + (User \<times> repository)" where
  "updateUserData env s u updateData0 =
     (let updateData =
            (case password_opt updateData0 of
               None \<Rightarrow> updateData0
             | Some p \<Rightarrow>
                 if p \<noteq> [] then updateData0\<lparr>password_opt := Some (hashPassword env p)\<rparr>
                 else updateData0)
      in repository_save s (assign u updateData))"

definition update ::
  "service_env \<Rightarrow> repository \<Rightarrow> jsstring \<Rightarrow> partialCreateUserDto
     \<Rightarrow> (error + userResponseDto IResponse) \<times> repository" where
  "update env s i updateData =
     (case findUserById s i of
        Inl e \<Rightarrow> (Inl e, s)
      | Inr u \<Rightarrow>
          (case validateUpdateConstraints s u updateData of
             Inl e \<Rightarrow> (Inl e, s)
           | Inr _ \<Rightarrow>
               (case updateUserData env s u updateData of
                  Inl e \<Rightarrow> (Inl e, s)
                | Inr (updatedUser, s') \<Rightarrow>
                    (Inr (success (toResponseDto updatedUser) MsgUpdated), s'))))"

subsection \<open>remove\<close>

datatype deletion = Deletion (deleted: bool)

definition remove ::
  "repository \<Rightarrow> jsstring \<Rightarrow> (error + deletion IResponse) \<times> repository" where
  "remove s i =
     (case findUserById s i of
        Inl e \<Rightarrow> (Inl e, s)
      | Inr u \<Rightarrow> (Inr (success (Deletion True) MsgDeleted), repository_remove s u))"

text \<open>
  \<open>rehashed\<close> is the update data after the first statement of \<^verbatim>\<open>updateUserData\<close>: a
  truthy password has been replaced by its hash, anything else is left as it came.
\<close>

definition rehashed :: "service_env \<Rightarrow> partialCreateUserDto \<Rightarrow> partialCreateUserDto" where
  "rehashed env d =
     (case password_opt d of
        None \<Rightarrow> d
      | Some p \<Rightarrow> if p \<noteq> [] then d\<lparr>password_opt := Some (hashPassword env p)\<rparr> else d)"

section \<open>Example data\<close>

text \<open>
  A toy environment for the concrete runs below: the salt is fixed, the hash is the salt,
  the password and a dot, and the next generated id is \<^verbatim>\<open>u2\<close>. The token verifier knows
  one good token and one expired token, under the secret \<^verbatim>\<open>s3cret\<close>.
\<close>

definition demo_env :: service_env where
  "demo_env = \<lparr>genSalt = (\<lambda>rounds. str ''$2b$10$''),
               bcrypt_hash = (\<lambda>pw salt. salt @ pw @ str ''.''),
               generatedId = str ''u2''\<rparr>"

definition alice_dto :: createUserDto where
  "alice_dto = \<lparr>email = str ''a@x.com'', username = str ''alice'', password = str ''secret'',
                profile = Map.empty\<rparr>"

definition alice :: User where
  "alice = \<lparr>email = str ''a@x.com'', username = str ''alice'',
             password = str ''$2b$10$secret.'', profile = Map.empty, userId = str ''u1''\<rparr>"

definition bob :: User where
  "bob = \<lparr>email = str ''b@x.com'', username = str ''bob'',
           password = str ''$2b$10$hunter2.'', profile = [str ''city'' \<mapsto> str ''Hue''],
           userId = str ''u3''\<rparr>"

definition no_update :: partialCreateUserDto where
  "no_update = \<lparr>email_opt = None, username_opt = None, password_opt = None,
                 profile_opt = Map.empty\<rparr>"

definition demo_jwt_env :: "jsstring jwt_env" where
  "demo_jwt_env =
     \<lparr>JWT_SECRET = Some (str ''s3cret''),
      verifyAsync = (\<lambda>token secret.
        if secret \<noteq> Some (str ''s3cret'') then Inl JsonWebTokenError
        else if token = str ''good'' then Inr (str ''u1'')
        else if token = str ''old'' then Inl TokenExpiredError
        else Inl JsonWebTokenError)\<rparr>"

definition with_authorization :: "jsstring \<Rightarrow> jsstring request" where
  "with_authorization h = \<lparr>headers = [str ''authorization'' \<mapsto> h], user = None\<rparr>"

definition no_authorization :: "jsstring request" where
  "no_authorization = \<lparr>headers = Map.empty, user = None\<rparr>"

lemmas string_defs = str_def trim_def isWhiteSpace_def space_def

lemmas guard_defs = canActivate_def extractTokenFromHeader_def demo_jwt_env_def
  with_authorization_def no_authorization_def

lemmas service_defs = create_def create_persist_def validateUniqueConstraints_def
  findByEmail_def findByUsername_def findUserById_def repository_findOne_def
  repository_save_new_def repository_save_def repository_remove_def
  toEntity_def toResponseDto_def hashPassword_def SALT_ROUNDS_def
  update_def updateUserData_def validateUpdateConstraints_def assign_def remove_def
  findOne_def Let_def

lemmas demo_defs = demo_env_def alice_dto_def alice_def bob_def no_update_def

section \<open>Facts about strings\<close>

lemma trimmed_dropWhile:
  assumes "t = [] \<or> \<not> P (hd t)"
  shows "dropWhile P (rev (dropWhile P (rev t))) = rev (dropWhile P (rev t))"
  by (metis assms dropWhile_eq_self_iff last_appendR last_rev rev.simps(1)
      rev_rev_ident takeWhile_dropWhile_id)

lemma trim_idem: "trim (trim s) = trim s"
proof -
  let ?t = "dropWhile isWhiteSpace s"
  have "?t = [] \<or> \<not> isWhiteSpace (hd ?t)"
    by (metis hd_dropWhile)
  then have "dropWhile isWhiteSpace (trim s) = trim s"
    unfolding trim_def by (rule trimmed_dropWhile)
  then show ?thesis
    by (simp add: trim_def)
qed

lemma js_split_ne: "js_split sep s \<noteq> []"
  by (induction s) (auto split: list.splits)

lemma js_split_no_sep: "sep \<notin> set a \<Longrightarrow> js_split sep a = [a]"
  by (induction a) auto

lemma js_split_append: "sep \<notin> set a \<Longrightarrow> js_split sep (a @ sep # b) = a # js_split sep b"
  by (induction a) auto

lemma js_split_Cons:
  "js_split sep s = p # ps \<Longrightarrow>
     sep \<notin> set p
     \<and> (if ps = [] then s = p else \<exists>rest. s = p @ sep # rest \<and> js_split sep rest = ps)"
proof (induction s arbitrary: p ps)
  case Nil
  then show ?case by simp
next
  case (Cons c cs)
  show ?case
  proof (cases "c = sep")
    case True
    with Cons.prems have "p = []" and "ps = js_split sep cs"
      by simp_all
    with True show ?thesis
      by (simp add: js_split_ne)
  next
    case False
    obtain q qs where q: "js_split sep cs = q # qs"
      using js_split_ne [of sep cs] by (cases "js_split sep cs") auto
    with False Cons.prems have p: "p = c # q" and ps: "ps = qs"
      by simp_all
    from Cons.IH [OF q] False show ?thesis
      unfolding p ps by (auto split: if_splits)
  qed
qed

text \<open>The first two parts of a split, read back as the shape of the string.\<close>

lemma js_split_two:
  "js_split sep s = p # q # ms \<longleftrightarrow>
     (\<exists>rest. s = p @ sep # q @ rest \<and> sep \<notin> set p \<and> sep \<notin> set q
        \<and> (if rest = [] then ms = [] else hd rest = sep \<and> ms = js_split sep (tl rest)))"
  (is "?L \<longleftrightarrow> ?R")
proof
  assume ?L
  from js_split_Cons [OF this] obtain r1 where p: "sep \<notin> set p" and s: "s = p @ sep # r1"
    and r1: "js_split sep r1 = q # ms"
    by auto
  from js_split_Cons [OF r1] have q: "sep \<notin> set q"
    and m: "if ms = [] then r1 = q else \<exists>rest. r1 = q @ sep # rest \<and> js_split sep rest = ms"
    by auto
  show ?R
  proof (cases "ms = []")
    case True
    with m s p q show ?thesis by (intro exI [of _ "[]"]) simp
  next
    case False
    with m obtain r2 where "r1 = q @ sep # r2" and "js_split sep r2 = ms" by auto
    with s p q False show ?thesis by (intro exI [of _ "sep # r2"]) auto
  qed
next
  assume ?R
  then obtain rest where s: "s = p @ sep # q @ rest" and p: "sep \<notin> set p" and q: "sep \<notin> set q"
    and m: "if rest = [] then ms = [] else hd rest = sep \<and> ms = js_split sep (tl rest)"
    by auto
  show ?L
  proof (cases rest)
    case Nil
    with s p q m show ?thesis by (simp add: js_split_append js_split_no_sep)
  next
    case (Cons c cs)
    with s p q m show ?thesis by (simp add: js_split_append)
  qed
qed

section \<open>Facts about the guard\<close>

lemma Bearer_no_space: "space \<notin> set (str ''Bearer'')"
  by (simp add: str_def space_def)

lemma extractTokenFromHeader_Some:
  "extractTokenFromHeader request = Inr (Some token) \<longleftrightarrow>
     (\<exists>rest. headers request (str ''authorization'') = Some (str ''Bearer'' @ space # token @ rest)
        \<and> space \<notin> set token \<and> (rest = [] \<or> hd rest = space))"
  (is "?L \<longleftrightarrow> ?R")
proof
  assume ?L
  then obtain s ms where h: "headers request (str ''authorization'') = Some s"
    and sp: "js_split space s = str ''Bearer'' # token # ms"
    by (auto simp: extractTokenFromHeader_def split: option.splits if_splits list.splits)
  from sp [unfolded js_split_two] h show ?R
    by (auto split: if_splits)
next
  assume ?R
  then obtain rest where
    h: "headers request (str ''authorization'') = Some (str ''Bearer'' @ space # token @ rest)"
    and t: "space \<notin> set token" and r: "rest = [] \<or> hd rest = space"
    by auto
  have "js_split space (str ''Bearer'' @ space # token @ rest) =
          str ''Bearer'' # token # (if rest = [] then [] else js_split space (tl rest))"
    unfolding js_split_two using t r Bearer_no_space by (intro exI [of _ rest]) auto
  with h show ?L
    by (simp add: extractTokenFromHeader_def)
qed

lemma extractTokenFromHeader_cases:
  "extractTokenFromHeader request = Inl UnauthorizedException
   \<or> extractTokenFromHeader request = Inr None
   \<or> (\<exists>token. extractTokenFromHeader request = Inr (Some token))"
  by (auto simp: extractTokenFromHeader_def split: option.splits list.splits)

lemma canActivate_Inr:
  "canActivate env request = Inr r \<longleftrightarrow>
     (\<exists>token rest payload.
        headers request (str ''authorization'') = Some (str ''Bearer'' @ space # token @ rest)
        \<and> token \<noteq> [] \<and> space \<notin> set token \<and> (rest = [] \<or> hd rest = space)
        \<and> verifyAsync env token (JWT_SECRET env) = Inr payload
        \<and> r = (True, request\<lparr>user := Some payload\<rparr>))"
  (is "?L \<longleftrightarrow> ?R")
proof
  assume ?L
  then obtain token payload where "extractTokenFromHeader request = Inr (Some token)"
    and "token \<noteq> []" and "verifyAsync env token (JWT_SECRET env) = Inr payload"
    and "r = (True, request\<lparr>user := Some payload\<rparr>)"
    by (auto simp: canActivate_def split: sum.splits option.splits if_splits)
  then show ?R
    unfolding extractTokenFromHeader_Some by blast
next
  assume ?R
  then obtain token rest payload where
    h: "headers request (str ''authorization'') = Some (str ''Bearer'' @ space # token @ rest)"
    and t: "token \<noteq> []" "space \<notin> set token" "rest = [] \<or> hd rest = space"
    and v: "verifyAsync env token (JWT_SECRET env) = Inr payload"
    and r: "r = (True, request\<lparr>user := Some payload\<rparr>)"
    by blast
  from h t have "extractTokenFromHeader request = Inr (Some token)"
    unfolding extractTokenFromHeader_Some by blast
  with t v r show ?L
    by (simp add: canActivate_def)
qed

lemma canActivate_Inl: "canActivate env request = Inl e \<Longrightarrow> e = UnauthorizedException"
  using extractTokenFromHeader_cases [of request]
  by (auto simp: canActivate_def split: sum.splits option.splits if_splits)

section \<open>Facts about the repository\<close>

lemma find_Some_set: "find P xs = Some x \<Longrightarrow> x \<in> set xs \<and> P x"
  by (induction xs) (auto split: if_splits)

lemma find_None_image: "find (\<lambda>r. f r = v) xs = None \<longleftrightarrow> v \<notin> f ` set xs"
  by (induction xs) auto

lemma find_Some_image: "(\<exists>y. find (\<lambda>r. f r = v) xs = Some y) \<longleftrightarrow> v \<in> f ` set xs"
  using find_None_image [of f v xs] by (cases "find (\<lambda>r. f r = v) xs") auto

lemma findByEmail_None: "findByEmail s e = None \<longleftrightarrow> e \<notin> email ` set s"
  by (simp add: findByEmail_def repository_findOne_def find_None_image)

lemma findByEmail_Some: "(\<exists>y. findByEmail s e = Some y) \<longleftrightarrow> e \<in> email ` set s"
  by (simp add: findByEmail_def repository_findOne_def find_Some_image)

lemma findByUsername_None: "findByUsername s n = None \<longleftrightarrow> n \<notin> username ` set s"
  by (simp add: findByUsername_def repository_findOne_def find_None_image)

lemma findByUsername_Some: "(\<exists>y. findByUsername s n = Some y) \<longleftrightarrow> n \<in> username ` set s"
  by (simp add: findByUsername_def repository_findOne_def find_Some_image)

lemma findUserById_Inr: "findUserById s i = Inr u \<Longrightarrow> u \<in> set s \<and> userId u = i"
  by (auto simp: findUserById_def repository_findOne_def split: option.splits dest: find_Some_set)

lemma findUserById_Inl:
  "findUserById s i = Inl e \<longleftrightarrow> i \<notin> userId ` set s \<and> e = NotFoundException MsgUserNotFound"
  by (auto simp: findUserById_def repository_findOne_def find_None_image split: option.splits
      dest: find_Some_set)

lemma findUserById_present: "i \<in> userId ` set s \<Longrightarrow> \<exists>u. findUserById s i = Inr u"
  by (cases "findUserById s i") (auto simp: findUserById_Inl)

lemma repository_save_new_eq:
  "repository_save_new newId s e =
     (if newId \<in> userId ` set s \<or> email e \<in> email ` set s \<or> username e \<in> username ` set s
      then Inl QueryFailedError
      else Inr (\<lparr>email = email e, username = username e, password = password e,
                  profile = profile e, userId = newId\<rparr>,
                s @ [\<lparr>email = email e, username = username e, password = password e,
                       profile = profile e, userId = newId\<rparr>]))"
proof -
  have "list_ex (\<lambda>r. userId r = newId \<or> email r = email e \<or> username r = username e) s
          \<longleftrightarrow> newId \<in> userId ` set s \<or> email e \<in> email ` set s
                \<or> username e \<in> username ` set s"
    by (induction s) auto
  then show ?thesis
    by (simp add: repository_save_new_def Let_def)
qed

lemma repository_save_eq:
  "repository_save s u =
     (if \<exists>r\<in>set s. userId r \<noteq> userId u \<and> (email r = email u \<or> username r = username u)
      then Inl QueryFailedError
      else if userId u \<in> userId ` set s
      then Inr (u, map (\<lambda>r. if userId r = userId u then u else r) s)
      else Inr (u, s @ [u]))"
  by (simp add: repository_save_def list_ex_iff image_iff) metis

lemma repository_save_Inl: "repository_save s u = Inl e \<Longrightarrow> e = QueryFailedError"
  by (auto simp: repository_save_def split: if_splits)

lemma repository_save_new_Inl: "repository_save_new i s u = Inl e \<Longrightarrow> e = QueryFailedError"
  by (auto simp: repository_save_new_def Let_def split: if_splits)

lemma distinct_field:
  assumes "distinct (map f s)" and "a \<in> set s" and "b \<in> set s" and "f a = f b"
  shows "a = b"
  using assms by (meson distinct_map inj_onD)

lemma find_map_id:
  "userId u' = i \<Longrightarrow>
   find (\<lambda>r. userId r = i) (map (\<lambda>r. if userId r = i then u' else r) s) =
     (if i \<in> userId ` set s then Some u' else None)"
  by (induction s) auto

lemma findUserById_after_update:
  assumes "findUserById s i = Inr u" and "userId u' = i"
  shows "findUserById (map (\<lambda>r. if userId r = i then u' else r) s) i = Inr u'"
proof -
  from assms(1) have "i \<in> userId ` set s"
    using findUserById_Inr by blast
  with assms(2) show ?thesis
    by (simp add: findUserById_def repository_findOne_def find_map_id)
qed

section \<open>Facts about create and update\<close>

lemma validateUniqueConstraints_eq:
  "validateUniqueConstraints s dto =
     (if email dto \<in> email ` set s then Inl (ConflictException MsgEmailInUse)
      else if username dto \<in> username ` set s then Inl (ConflictException MsgUsernameInUse)
      else Inr ())"
  by (simp add: validateUniqueConstraints_def findByEmail_Some findByUsername_Some)

lemma validateUpdateConstraints_eq:
  "validateUpdateConstraints s u d =
     (if (\<exists>e. email_opt d = Some e \<and> e \<noteq> [] \<and> e \<noteq> email u \<and> e \<in> email ` set s)
      then Inl (ConflictException MsgEmailInUse)
      else if (\<exists>n. username_opt d = Some n \<and> n \<noteq> [] \<and> n \<noteq> username u
                  \<and> n \<in> username ` set s)
      then Inl (ConflictException MsgUsernameInUse)
      else Inr ())"
  by (auto simp: validateUpdateConstraints_def findByEmail_Some findByUsername_Some
      findByEmail_None findByUsername_None split: option.splits)

lemma updateUserData_rehashed:
  "updateUserData env s u d = repository_save s (assign u (rehashed env d))"
  by (simp add: updateUserData_def rehashed_def)

lemma assign_rehashed [simp]:
  "userId (assign u (rehashed env d)) = userId u"
  "email (assign u (rehashed env d)) = (case email_opt d of None \<Rightarrow> email u | Some e \<Rightarrow> e)"
  "username (assign u (rehashed env d)) =
     (case username_opt d of None \<Rightarrow> username u | Some n \<Rightarrow> n)"
  "password (assign u (rehashed env d)) =
     (case password_opt d of
        None \<Rightarrow> password u
      | Some p \<Rightarrow> if p \<noteq> [] then hashPassword env p else p)"
  "profile (assign u (rehashed env d)) = profile u ++ profile_opt d"
  by (auto simp: assign_def rehashed_def split: option.splits)

text \<open>
  An update whose email and username are each missing, the user's own, or owned by nobody
  goes through, on a store that satisfies its constraints.
\<close>

lemma update_result:
  assumes ok: "store_ok s" and u: "findUserById s i = Inr u"
    and e: "case email_opt d of None \<Rightarrow> True | Some e \<Rightarrow> e = email u \<or> e \<notin> email ` set s"
    and n: "case username_opt d of
              None \<Rightarrow> True
            | Some n \<Rightarrow> n = username u \<or> n \<notin> username ` set s"
  shows "update env s i d =
           (Inr (success (toResponseDto (assign u (rehashed env d))) MsgUpdated),
            map (\<lambda>r. if userId r = i then assign u (rehashed env d) else r) s)"
proof -
  let ?u = "assign u (rehashed env d)"
  from u have mem: "u \<in> set s" and i: "userId u = i"
    by (simp_all add: findUserById_Inr)
  have v: "validateUpdateConstraints s u d = Inr ()"
    using e n by (auto simp: validateUpdateConstraints_eq split: option.splits)
  have "\<not> (\<exists>r\<in>set s. userId r \<noteq> userId ?u \<and> (email r = email ?u \<or> username r = username ?u))"
  proof
    assume "\<exists>r\<in>set s. userId r \<noteq> userId ?u \<and> (email r = email ?u \<or> username r = username ?u)"
    then obtain r where r: "r \<in> set s" "userId r \<noteq> userId u"
      and c: "email r = email ?u \<or> username r = username ?u"
      by auto
    from r have ne: "r \<noteq> u" by auto
    from c show False
    proof
      assume "email r = email ?u"
      with e r have "email r = email u"
        by (auto split: option.splits)
      with ok mem r ne show False
        unfolding store_ok_def by (metis distinct_field)
    next
      assume "username r = username ?u"
      with n r have "username r = username u"
        by (auto split: option.splits)
      with ok mem r ne show False
        unfolding store_ok_def by (metis distinct_field)
    qed
  qed
  moreover have "userId ?u \<in> userId ` set s"
    using mem by auto
  ultimately have "repository_save s ?u =
      Inr (?u, map (\<lambda>r. if userId r = userId ?u then ?u else r) s)"
    by (simp only: repository_save_eq if_False if_True)
  with u v i show ?thesis
    by (simp add: update_def updateUserData_rehashed)
qed

text \<open>What a successful update has done.\<close>

lemma update_success:
  assumes "update env s i d = (Inr r, s')"
  shows "\<exists>u. findUserById s i = Inr u
           \<and> r = success (toResponseDto (assign u (rehashed env d))) MsgUpdated
           \<and> s' = map (\<lambda>r. if userId r = i then assign u (rehashed env d) else r) s"
proof -
  from assms obtain u where u: "findUserById s i = Inr u"
    by (cases "findUserById s i") (auto simp: update_def)
  then have "u \<in> set s" and i: "userId u = i"
    by (simp_all add: findUserById_Inr)
  then have "userId (assign u (rehashed env d)) \<in> userId ` set s"
    by auto
  with assms u i show ?thesis
    by (auto simp: update_def updateUserData_rehashed repository_save_eq
        split: sum.splits if_splits)
qed

lemma update_failure: "update env s i d = (Inl e, s') \<Longrightarrow> s' = s"
  by (auto simp: update_def split: sum.splits prod.splits)

section \<open>The store keeps its constraints\<close>

lemma map_replace_distinct:
  assumes "distinct (map userId s)" and "distinct (map f s)"
    and "\<forall>r\<in>set s. userId r \<noteq> userId u \<longrightarrow> f r \<noteq> f u"
  shows "distinct (map f (map (\<lambda>r. if userId r = userId u then u else r) s))"
  using assms
proof (induction s)
  case Nil
  then show ?case by simp
next
  case (Cons x xs)
  show ?case
  proof (cases "userId x = userId u")
    case True
    with Cons.prems have "\<forall>r\<in>set xs. userId r \<noteq> userId u"
      by (auto simp: image_iff)
    then have m: "map (\<lambda>r. if userId r = userId u then u else r) xs = xs"
      and "f u \<notin> f ` set xs"
      using Cons.prems(3) by (induction xs) auto
    moreover from Cons.prems(2) have "distinct (map f xs)"
      by simp
    ultimately show ?thesis
      using True by simp
  next
    case False
    with Cons show ?thesis
      by (auto simp: image_iff)
  qed
qed

lemma store_ok_remove: "store_ok s \<Longrightarrow> store_ok (snd (remove s i))"
  by (cases "findUserById s i")
    (auto simp: remove_def repository_remove_def store_ok_def distinct_map_filter)

lemma store_ok_create: "store_ok s \<Longrightarrow> store_ok (snd (create env s dto))"
  by (auto simp: create_def Let_def validateUniqueConstraints_eq create_persist_def
      repository_save_new_eq toEntity_def store_ok_def)

lemma store_ok_update:
  assumes "store_ok s"
  shows "store_ok (snd (update env s i d))"
proof (cases "update env s i d")
  case (Pair res s')
  show ?thesis
  proof (cases res)
    case (Inl e)
    with Pair have "s' = s"
      by (simp add: update_failure)
    with Pair assms show ?thesis by simp
  next
    case (Inr r)
    with Pair obtain u where u: "findUserById s i = Inr u"
      and s': "s' = map (\<lambda>r. if userId r = i then assign u (rehashed env d) else r) s"
      using update_success by blast
    let ?u = "assign u (rehashed env d)"
    from u have i: "userId ?u = i"
      by (simp add: findUserById_Inr)
    from Pair Inr u have nv:
      "\<not> (\<exists>r\<in>set s. userId r \<noteq> userId ?u \<and> (email r = email ?u \<or> username r = username ?u))"
      by (auto simp: update_def updateUserData_rehashed repository_save_eq
          simp del: assign_rehashed split: sum.splits if_splits)
    have ids: "map userId s' = map userId s"
      unfolding s' using i by (induction s) auto
    have d1: "distinct (map userId s')"
      using assms unfolding ids store_ok_def by blast
    have d2: "distinct (map email s')"
      using map_replace_distinct [of s email ?u] assms nv
      unfolding s' store_ok_def i by blast
    have d3: "distinct (map username s')"
      using map_replace_distinct [of s username ?u] assms nv
      unfolding s' store_ok_def i by blast
    from d1 d2 d3 Pair show ?thesis
      by (simp only: store_ok_def snd_conv)
  qed
qed

section \<open>Claims about create\<close>

text \<open>
  C1, as stated, fails for a username that is present in the store with surrounding white
  space: \<^verbatim>\<open>update\<close> does not trim, so it can store \<^verbatim>\<open>" bob"\<close>; a create request for
  \<^verbatim>\<open>" bob"\<close> is then checked as \<^verbatim>\<open>"bob"\<close>, which is absent, and a new record is persisted.
\<close>

theorem create_username_present_counterexample:
  "snd (update demo_env [alice] (str ''u1'') (no_update\<lparr>username_opt := Some (str '' bob'')\<rparr>))
     = [alice\<lparr>username := str '' bob''\<rparr>]
   \<and> str '' bob'' \<in> set (map username [alice\<lparr>username := str '' bob''\<rparr>])
   \<and> create demo_env [alice\<lparr>username := str '' bob''\<rparr>]
        \<lparr>email = str ''b@x.com'', username = str '' bob'', password = str ''pw'',
         profile = Map.empty\<rparr>
     = (Inr (success \<lparr>resp_userId = str ''u2'', resp_email = str ''b@x.com'',
                      resp_username = str ''bob'', resp_profile = Map.empty\<rparr> MsgCreated),
        [alice\<lparr>username := str '' bob''\<rparr>,
         \<lparr>email = str ''b@x.com'', username = str ''bob'', password = str ''$2b$10$pw.'',
          profile = Map.empty, userId = str ''u2''\<rparr>])"
  by (simp add: service_defs demo_defs string_defs)

text \<open>
  C1 (amended): for every create request whose email is present in the store, or whose
  trimmed username is present in the store, create fails with a Conflict error and the store
  is unchanged; the error names the email when the email collides and the username
  otherwise.
\<close>

theorem create_conflict:
  assumes "email dto \<in> email ` set s \<or> trim (username dto) \<in> username ` set s"
  shows "create env s dto =
           (Inl (ConflictException
                   (if email dto \<in> email ` set s then MsgEmailInUse else MsgUsernameInUse)), s)"
  using assms by (auto simp: create_def validateUniqueConstraints_eq)

theorem create_conflict_witness:
  "create demo_env [alice] (alice_dto\<lparr>username := str ''carol''\<rparr>)
     = (Inl (ConflictException MsgEmailInUse), [alice])
   \<and> create demo_env [alice] (alice_dto\<lparr>email := str ''c@x.com'', username := str '' alice ''\<rparr>)
     = (Inl (ConflictException MsgUsernameInUse), [alice])"
  using create_conflict [of "alice_dto\<lparr>username := str ''carol''\<rparr>" "[alice]" demo_env]
    create_conflict [of "alice_dto\<lparr>email := str ''c@x.com'', username := str '' alice ''\<rparr>"
      "[alice]" demo_env]
  by (simp add: demo_defs string_defs)

text \<open>
  C2, as stated, fails when the username is absent from the store as it was sent but present
  once trimmed: with \<^verbatim>\<open>alice\<close> stored, a request for \<^verbatim>\<open>" alice"\<close> under a fresh email is a
  Conflict.
\<close>

theorem create_fresh_counterexample:
  "str ''b@x.com'' \<notin> set (map email [alice]) \<and> str '' alice'' \<notin> set (map username [alice])
   \<and> create demo_env [alice]
        \<lparr>email = str ''b@x.com'', username = str '' alice'', password = str ''pw'',
         profile = Map.empty\<rparr>
     = (Inl (ConflictException MsgUsernameInUse), [alice])"
  by (simp add: service_defs demo_defs string_defs)

text \<open>
  C2 (amended): for every create request whose email and trimmed username are both absent
  from the store (the store generating a fresh id), create succeeds and appends one record:
  its username is the trimmed username, its password is the hash, under a salt of cost 10,
  of the trimmed password, and the returned record has the id, email, username and profile
  fields and no password field. The stored password differs from the raw password whenever
  the hash function has no fixed point and returns strings without surrounding white space.
\<close>

theorem create_fresh:
  assumes "email dto \<notin> email ` set s" and "trim (username dto) \<notin> username ` set s"
    and "generatedId env \<notin> userId ` set s"
  shows "create env s dto =
           (Inr (success \<lparr>resp_userId = generatedId env, resp_email = email dto,
                          resp_username = trim (username dto), resp_profile = profile dto\<rparr>
                         MsgCreated),
            s @ [\<lparr>email = email dto, username = trim (username dto),
                   password = bcrypt_hash env (trim (password dto)) (genSalt env 10),
                   profile = profile dto, userId = generatedId env\<rparr>])
         \<and> ((\<forall>p. bcrypt_hash env p (genSalt env 10) \<noteq> p
                  \<and> trim (bcrypt_hash env p (genSalt env 10)) = bcrypt_hash env p (genSalt env 10))
              \<longrightarrow> bcrypt_hash env (trim (password dto)) (genSalt env 10) \<noteq> password dto)"
proof (intro conjI impI)
  show "create env s dto =
           (Inr (success \<lparr>resp_userId = generatedId env, resp_email = email dto,
                          resp_username = trim (username dto), resp_profile = profile dto\<rparr>
                         MsgCreated),
            s @ [\<lparr>email = email dto, username = trim (username dto),
                   password = bcrypt_hash env (trim (password dto)) (genSalt env 10),
                   profile = profile dto, userId = generatedId env\<rparr>])"
    using assms
    by (simp add: create_def validateUniqueConstraints_eq create_persist_def
        repository_save_new_eq toEntity_def toResponseDto_def hashPassword_def SALT_ROUNDS_def)
next
  let ?h = "\<lambda>p. bcrypt_hash env p (genSalt env 10)"
  assume h: "\<forall>p. ?h p \<noteq> p \<and> trim (?h p) = ?h p"
  show "?h (trim (password dto)) \<noteq> password dto"
  proof
    assume eq: "?h (trim (password dto)) = password dto"
    with h have "trim (password dto) = password dto"
      by metis
    with eq h show False
      by metis
  qed
qed

theorem create_fresh_witness:
  "create demo_env [] (alice_dto\<lparr>username := str '' alice '', password := str '' secret''\<rparr>)
     = (Inr (success \<lparr>resp_userId = str ''u2'', resp_email = str ''a@x.com'',
                      resp_username = str ''alice'', resp_profile = Map.empty\<rparr> MsgCreated),
        [\<lparr>email = str ''a@x.com'', username = str ''alice'',
          password = str ''$2b$10$secret.'', profile = Map.empty, userId = str ''u2''\<rparr>])
   \<and> str ''$2b$10$secret.'' \<noteq> str '' secret''"
proof -
  let ?dto = "alice_dto\<lparr>username := str '' alice '', password := str '' secret''\<rparr>"
  have fresh: "email ?dto \<notin> email ` set []" "trim (username ?dto) \<notin> username ` set []"
    "generatedId demo_env \<notin> userId ` set []"
    by simp_all
  have "bcrypt_hash demo_env p (genSalt demo_env 10) \<noteq> p" for p
  proof
    assume "bcrypt_hash demo_env p (genSalt demo_env 10) = p"
    then have "length (bcrypt_hash demo_env p (genSalt demo_env 10)) = length p"
      by simp
    then show False
      by (simp add: demo_env_def str_def)
  qed
  moreover have "trim (bcrypt_hash demo_env p (genSalt demo_env 10))
      = bcrypt_hash demo_env p (genSalt demo_env 10)" for p
    by (simp add: demo_env_def string_defs)
  ultimately have hash: "\<forall>p. bcrypt_hash demo_env p (genSalt demo_env 10) \<noteq> p
      \<and> trim (bcrypt_hash demo_env p (genSalt demo_env 10))
          = bcrypt_hash demo_env p (genSalt demo_env 10)"
    by blast
  from create_fresh [OF fresh] hash show ?thesis
    by (simp add: demo_defs string_defs)
qed

text \<open>
  C6, as stated, fails for the email: it is neither trimmed before the uniqueness check nor
  before the record is persisted. With \<^verbatim>\<open>a@x.com\<close> stored, a request for \<^verbatim>\<open>" a@x.com"\<close>
  passes the check and is stored with its leading space.
\<close>

theorem create_email_not_trimmed_counterexample:
  "trim (str '' a@x.com'') = str ''a@x.com'' \<and> str ''a@x.com'' \<in> set (map email [alice])
   \<and> create demo_env [alice]
        \<lparr>email = str '' a@x.com'', username = str ''carol'', password = str ''pw'',
         profile = Map.empty\<rparr>
     = (Inr (success \<lparr>resp_userId = str ''u2'', resp_email = str '' a@x.com'',
                      resp_username = str ''carol'', resp_profile = Map.empty\<rparr> MsgCreated),
        [alice,
         \<lparr>email = str '' a@x.com'', username = str ''carol'', password = str ''$2b$10$pw.'',
          profile = Map.empty, userId = str ''u2''\<rparr>])"
  by (simp add: service_defs demo_defs string_defs)

text \<open>
  C6 (amended): for every create request, the username and the password are trimmed of
  surrounding white space before the uniqueness checks, the hashing and the persisting, so
  create does the same on the request and on the request with both already trimmed; the
  email is checked and persisted as it was sent. On success the one new record has the
  trimmed username, the hash of the trimmed password and the email as sent, and neither the
  email as sent nor the trimmed username was in the store.
\<close>

theorem create_trims_username_and_password:
  "create env s dto =
     create env s (dto\<lparr>username := trim (username dto), password := trim (password dto)\<rparr>)
   \<and> (\<forall>r s'. create env s dto = (Inr r, s') \<longrightarrow>
         (\<exists>u. s' = s @ [u] \<and> username u = trim (username dto) \<and> email u = email dto
            \<and> password u = hashPassword env (trim (password dto))
            \<and> email dto \<notin> email ` set s \<and> trim (username dto) \<notin> username ` set s))"
proof (intro conjI allI impI)
  show "create env s dto =
     create env s (dto\<lparr>username := trim (username dto), password := trim (password dto)\<rparr>)"
    by (simp add: create_def trim_idem)
next
  fix r s'
  assume "create env s dto = (Inr r, s')"
  then show "\<exists>u. s' = s @ [u] \<and> username u = trim (username dto) \<and> email u = email dto
            \<and> password u = hashPassword env (trim (password dto))
            \<and> email dto \<notin> email ` set s \<and> trim (username dto) \<notin> username ` set s"
    by (auto simp: create_def validateUniqueConstraints_eq create_persist_def Let_def
        repository_save_new_eq toEntity_def split: if_splits)
qed

theorem create_trims_username_and_password_witness:
  "create demo_env [] (alice_dto\<lparr>username := str '' alice '', password := str ''secret ''\<rparr>)
     = create demo_env [] alice_dto
   \<and> (\<exists>u. snd (create demo_env [] (alice_dto\<lparr>username := str '' alice ''\<rparr>)) = [] @ [u]
         \<and> username u = str ''alice'' \<and> email u = str ''a@x.com'')"
proof -
  let ?dto = "alice_dto\<lparr>username := str '' alice '', password := str ''secret ''\<rparr>"
  let ?dto2 = "alice_dto\<lparr>username := str '' alice ''\<rparr>"
  have t: "?dto\<lparr>username := trim (username ?dto), password := trim (password ?dto)\<rparr> = alice_dto"
    by (simp add: alice_dto_def string_defs)
  have c: "create demo_env [] ?dto2 =
      (fst (create demo_env [] ?dto2), snd (create demo_env [] ?dto2))"
    by simp
  have "\<exists>r. fst (create demo_env [] ?dto2) = Inr r"
    by (simp add: service_defs demo_defs string_defs)
  then obtain r where "create demo_env [] ?dto2 = (Inr r, snd (create demo_env [] ?dto2))"
    using c by metis
  with create_trims_username_and_password [of demo_env "[]" ?dto2]
  have "\<exists>u. snd (create demo_env [] ?dto2) = [] @ [u]
         \<and> username u = trim (username ?dto2) \<and> email u = email ?dto2"
    by blast
  moreover have "trim (username ?dto2) = str ''alice''" "email ?dto2 = str ''a@x.com''"
    by (simp_all add: alice_dto_def string_defs)
  moreover from create_trims_username_and_password [of demo_env "[]" ?dto] t
  have "create demo_env [] ?dto = create demo_env [] alice_dto"
    by simp
  ultimately show ?thesis
    by simp
qed

text \<open>
  C7, as stated, fails: nothing catches the store's error. When another request stores
  \<^verbatim>\<open>alice\<close> between the uniqueness check and the save, the save raises the store's
  \<open>QueryFailedError\<close> and create passes it on; an update whose check is skipped for an
  empty username does the same.
\<close>

theorem persist_violation_counterexample:
  "validateUniqueConstraints [] alice_dto = Inr ()
   \<and> create_persist demo_env [alice] alice_dto = (Inl QueryFailedError, [alice])
   \<and> validateUpdateConstraints [alice\<lparr>username := []\<rparr>, bob] bob
        (no_update\<lparr>username_opt := Some []\<rparr>) = Inr ()
   \<and> update demo_env [alice\<lparr>username := []\<rparr>, bob] (str ''u3'')
        (no_update\<lparr>username_opt := Some []\<rparr>)
     = (Inl QueryFailedError, [alice\<lparr>username := []\<rparr>, bob])"
  by (simp add: service_defs demo_defs string_defs)

text \<open>
  C7 (amended): for every create or update whose pre-check passes but whose save raises the
  store's uniqueness violation, the service passes that error on as it is,
  \<open>QueryFailedError\<close>, and leaves the store unchanged; it is not turned into a Conflict
  error.
\<close>

theorem persist_violation_propagates:
  "(repository_save_new (generatedId env) s
       (toEntity (dto\<lparr>password := hashPassword env (password dto)\<rparr>)) = Inl e
      \<longrightarrow> create_persist env s dto = (Inl e, s) \<and> e = QueryFailedError)
   \<and> (findUserById s i = Inr u \<and> validateUpdateConstraints s u d = Inr ()
        \<and> updateUserData env s u d = Inl e
      \<longrightarrow> update env s i d = (Inl e, s) \<and> e = QueryFailedError)"
  by (auto simp: create_persist_def update_def updateUserData_def Let_def
      dest: repository_save_Inl repository_save_new_Inl)

theorem persist_violation_propagates_witness:
  "create_persist demo_env [alice] alice_dto = (Inl QueryFailedError, [alice])
   \<and> update demo_env [alice\<lparr>email := []\<rparr>, bob] (str ''u3'') (no_update\<lparr>email_opt := Some []\<rparr>)
     = (Inl QueryFailedError, [alice\<lparr>email := []\<rparr>, bob])"
proof -
  have 1: "repository_save_new (generatedId demo_env) [alice]
       (toEntity (alice_dto\<lparr>password := hashPassword demo_env (password alice_dto)\<rparr>))
     = Inl QueryFailedError"
    by (simp add: service_defs demo_defs string_defs)
  have 2: "findUserById [alice\<lparr>email := []\<rparr>, bob] (str ''u3'') = Inr bob
     \<and> validateUpdateConstraints [alice\<lparr>email := []\<rparr>, bob] bob
          (no_update\<lparr>email_opt := Some []\<rparr>) = Inr ()
     \<and> updateUserData demo_env [alice\<lparr>email := []\<rparr>, bob] bob
          (no_update\<lparr>email_opt := Some []\<rparr>) = Inl QueryFailedError"
    by (simp add: service_defs demo_defs string_defs)
  from 1 persist_violation_propagates
      [where env = demo_env and s = "[alice]" and dto = alice_dto and e = QueryFailedError]
  have "create_persist demo_env [alice] alice_dto = (Inl QueryFailedError, [alice])"
    by blast
  moreover from 2 persist_violation_propagates
      [where env = demo_env and s = "[alice\<lparr>email := []\<rparr>, bob]" and i = "str ''u3''"
         and u = bob and d = "no_update\<lparr>email_opt := Some []\<rparr>" and e = QueryFailedError]
  have "update demo_env [alice\<lparr>email := []\<rparr>, bob] (str ''u3'')
          (no_update\<lparr>email_opt := Some []\<rparr>)
        = (Inl QueryFailedError, [alice\<lparr>email := []\<rparr>, bob])"
    by blast
  ultimately show ?thesis
    by simp
qed

section \<open>Claims about update and remove\<close>

text \<open>
  C3: an update that sets the email to a value owned by a different user must fail with a
  Conflict error. The code misses the empty string: \<^verbatim>\<open>validateUpdateConstraints\<close> tests the
  new email for truthiness before it looks the email up, so the empty email is never
  checked, while \<^verbatim>\<open>Object.assign\<close> still writes it onto the record. With the empty email
  owned by \<^verbatim>\<open>alice\<close> (an update put it there), the update of \<^verbatim>\<open>bob\<close> to the empty email
  passes the check, reaches the save and fails with the store's \<open>QueryFailedError\<close>, not
  with a Conflict error. \<^verbatim>\<open>create\<close>, on the same store and the same email, does look the
  email up and answers with the Conflict error.
\<close>

theorem update_empty_email_not_conflict:
  "snd (update demo_env [alice, bob] (str ''u1'') (no_update\<lparr>email_opt := Some []\<rparr>))
     = [alice\<lparr>email := []\<rparr>, bob]
   \<and> [] \<in> set (map email [alice\<lparr>email := []\<rparr>])
   \<and> validateUpdateConstraints [alice\<lparr>email := []\<rparr>, bob] bob
        (no_update\<lparr>email_opt := Some []\<rparr>) = Inr ()
   \<and> update demo_env [alice\<lparr>email := []\<rparr>, bob] (str ''u3'') (no_update\<lparr>email_opt := Some []\<rparr>)
     = (Inl QueryFailedError, [alice\<lparr>email := []\<rparr>, bob])
   \<and> create demo_env [alice\<lparr>email := []\<rparr>, bob]
        \<lparr>email = [], username = str ''carol'', password = str ''pw'', profile = Map.empty\<rparr>
     = (Inl (ConflictException MsgEmailInUse), [alice\<lparr>email := []\<rparr>, bob])"
  by (simp add: service_defs demo_defs string_defs)

text \<open>
  Away from the empty string the check of an update works, for every existing user and
  every update request, on a store that satisfies its unique constraints: if the update sets
  email to a non-empty value owned by a different user, update fails with the Conflict error
  that names the email, and the store is unchanged; if it sets username to a non-empty value
  owned by a different user, update fails with a Conflict error; if it sets email to the
  user's own current value (the username being absent, the user's own or owned by nobody),
  update succeeds; the same for username; and when each of the two is absent or the user's
  own, the check passes whatever the store holds, that is, no lookup is made.
\<close>

theorem update_unique_constraints:
  assumes ok: "store_ok s" and u: "findUserById s i = Inr u"
  shows "(email_opt d = Some e \<and> e \<noteq> [] \<and> (\<exists>r\<in>set s. userId r \<noteq> i \<and> email r = e)
            \<longrightarrow> update env s i d = (Inl (ConflictException MsgEmailInUse), s))
         \<and> (username_opt d = Some n \<and> n \<noteq> [] \<and> (\<exists>r\<in>set s. userId r \<noteq> i \<and> username r = n)
            \<longrightarrow> (\<exists>m. update env s i d = (Inl (ConflictException m), s)))
         \<and> (email_opt d = Some (email u)
              \<and> (case username_opt d of
                    None \<Rightarrow> True
                  | Some n \<Rightarrow> n = username u \<or> n \<notin> username ` set s)
            \<longrightarrow> (\<exists>r s'. update env s i d = (Inr r, s')))
         \<and> (username_opt d = Some (username u)
              \<and> (case email_opt d of
                    None \<Rightarrow> True
                  | Some e \<Rightarrow> e = email u \<or> e \<notin> email ` set s)
            \<longrightarrow> (\<exists>r s'. update env s i d = (Inr r, s')))
         \<and> ((email_opt d = None \<or> email_opt d = Some (email u))
              \<and> (username_opt d = None \<or> username_opt d = Some (username u))
            \<longrightarrow> (\<forall>s2. validateUpdateConstraints s2 u d = Inr ()))"
proof (intro conjI impI)
  from u have mem: "u \<in> set s" and i: "userId u = i"
    by (simp_all add: findUserById_Inr)
  {
    assume a: "email_opt d = Some e \<and> e \<noteq> [] \<and> (\<exists>r\<in>set s. userId r \<noteq> i \<and> email r = e)"
    then obtain r where r: "r \<in> set s" "userId r \<noteq> i" "email r = e"
      by blast
    with i have "r \<noteq> u"
      by auto
    with ok mem r have "e \<noteq> email u"
      unfolding store_ok_def by (metis distinct_field)
    with a r have "validateUpdateConstraints s u d = Inl (ConflictException MsgEmailInUse)"
      by (auto simp: validateUpdateConstraints_eq)
    with u show "update env s i d = (Inl (ConflictException MsgEmailInUse), s)"
      by (simp add: update_def)
  }
  {
    assume a: "username_opt d = Some n \<and> n \<noteq> []
      \<and> (\<exists>r\<in>set s. userId r \<noteq> i \<and> username r = n)"
    then obtain r where r: "r \<in> set s" "userId r \<noteq> i" "username r = n"
      by blast
    with i have "r \<noteq> u"
      by auto
    with ok mem r have "n \<noteq> username u"
      unfolding store_ok_def by (metis distinct_field)
    with a r have "\<exists>m. validateUpdateConstraints s u d = Inl (ConflictException m)"
      by (auto simp: validateUpdateConstraints_eq)
    with u show "\<exists>m. update env s i d = (Inl (ConflictException m), s)"
      by (auto simp: update_def)
  }
  {
    assume "email_opt d = Some (email u)
      \<and> (case username_opt d of None \<Rightarrow> True | Some n \<Rightarrow> n = username u \<or> n \<notin> username ` set s)"
    with update_result [OF ok u, of d env] show "\<exists>r s'. update env s i d = (Inr r, s')"
      by simp
  }
  {
    assume "username_opt d = Some (username u)
      \<and> (case email_opt d of None \<Rightarrow> True | Some e \<Rightarrow> e = email u \<or> e \<notin> email ` set s)"
    with update_result [OF ok u, of d env] show "\<exists>r s'. update env s i d = (Inr r, s')"
      by simp
  }
  {
    assume "(email_opt d = None \<or> email_opt d = Some (email u))
      \<and> (username_opt d = None \<or> username_opt d = Some (username u))"
    then show "\<forall>s2. validateUpdateConstraints s2 u d = Inr ()"
      by (auto simp: validateUpdateConstraints_eq)
  }
qed

theorem update_unique_constraints_witness:
  "update demo_env [alice, bob] (str ''u3'') (no_update\<lparr>email_opt := Some (str ''a@x.com'')\<rparr>)
     = (Inl (ConflictException MsgEmailInUse), [alice, bob])
   \<and> (\<exists>m. update demo_env [alice, bob] (str ''u3'')
            (no_update\<lparr>username_opt := Some (str ''alice'')\<rparr>)
          = (Inl (ConflictException m), [alice, bob]))
   \<and> (\<exists>r s'. update demo_env [alice, bob] (str ''u3'')
            (no_update\<lparr>email_opt := Some (str ''b@x.com'')\<rparr>) = (Inr r, s'))
   \<and> (\<exists>r s'. update demo_env [alice, bob] (str ''u3'')
            (no_update\<lparr>username_opt := Some (str ''bob'')\<rparr>) = (Inr r, s'))
   \<and> validateUpdateConstraints [bob\<lparr>userId := str ''u9''\<rparr>] bob
        (no_update\<lparr>email_opt := Some (str ''b@x.com'')\<rparr>) = Inr ()"
proof -
  have ok: "store_ok [alice, bob]"
    by (simp add: store_ok_def demo_defs string_defs)
  have u: "findUserById [alice, bob] (str ''u3'') = Inr bob"
    by (simp add: findUserById_def repository_findOne_def demo_defs string_defs)
  have a: "alice \<in> set [alice, bob]" "userId alice \<noteq> str ''u3''"
    "email alice = str ''a@x.com''" "username alice = str ''alice''"
    "email bob = str ''b@x.com''" "username bob = str ''bob''"
    by (simp_all add: demo_defs string_defs)
  have 1: "update demo_env [alice, bob] (str ''u3'')
      (no_update\<lparr>email_opt := Some (str ''a@x.com'')\<rparr>)
     = (Inl (ConflictException MsgEmailInUse), [alice, bob])"
    using update_unique_constraints [OF ok u,
        where d = "no_update\<lparr>email_opt := Some (str ''a@x.com'')\<rparr>"
          and e = "str ''a@x.com''" and env = demo_env] a
    by (auto simp: no_update_def str_def)
  have 2: "\<exists>m. update demo_env [alice, bob] (str ''u3'')
            (no_update\<lparr>username_opt := Some (str ''alice'')\<rparr>)
          = (Inl (ConflictException m), [alice, bob])"
    using update_unique_constraints [OF ok u,
        where d = "no_update\<lparr>username_opt := Some (str ''alice'')\<rparr>"
          and n = "str ''alice''" and env = demo_env] a
    by (auto simp: no_update_def str_def)
  have 3: "\<exists>r s'. update demo_env [alice, bob] (str ''u3'')
            (no_update\<lparr>email_opt := Some (str ''b@x.com'')\<rparr>) = (Inr r, s')"
    using update_unique_constraints [OF ok u,
        where d = "no_update\<lparr>email_opt := Some (str ''b@x.com'')\<rparr>" and env = demo_env] a
    by (simp add: no_update_def)
  have 4: "\<exists>r s'. update demo_env [alice, bob] (str ''u3'')
            (no_update\<lparr>username_opt := Some (str ''bob'')\<rparr>) = (Inr r, s')"
    using update_unique_constraints [OF ok u,
        where d = "no_update\<lparr>username_opt := Some (str ''bob'')\<rparr>" and env = demo_env] a
    by (simp add: no_update_def)
  have 5: "validateUpdateConstraints [bob\<lparr>userId := str ''u9''\<rparr>] bob
        (no_update\<lparr>email_opt := Some (str ''b@x.com'')\<rparr>) = Inr ()"
    using update_unique_constraints [OF ok u,
        where d = "no_update\<lparr>email_opt := Some (str ''b@x.com'')\<rparr>" and env = demo_env] a
    by (simp add: no_update_def)
  from 1 2 3 4 5 show ?thesis
    by blast
qed

text \<open>
  C8: a password supplied in the update data must be stored hashed, and only an omitted
  password leaves the stored hash as it is. The code misses the empty string:
  \<^verbatim>\<open>updateUserData\<close> tests the new password for truthiness before it hashes, so the empty
  password is not hashed, while \<^verbatim>\<open>Object.assign\<close> still writes it over the stored hash.
  The update of \<^verbatim>\<open>alice\<close> with the empty password succeeds and leaves the empty string,
  in plain, as her stored password. \<^verbatim>\<open>create\<close>, given the same empty password, stores its
  hash.
\<close>

theorem update_empty_password_stored_plain:
  "hashPassword demo_env [] = str ''$2b$10$.''
   \<and> update demo_env [alice] (str ''u1'') (no_update\<lparr>password_opt := Some []\<rparr>)
     = (Inr (success \<lparr>resp_userId = str ''u1'', resp_email = str ''a@x.com'',
                      resp_username = str ''alice'', resp_profile = Map.empty\<rparr> MsgUpdated),
        [\<lparr>email = str ''a@x.com'', username = str ''alice'', password = [],
          profile = Map.empty, userId = str ''u1''\<rparr>])
   \<and> snd (create demo_env []
            \<lparr>email = str ''a@x.com'', username = str ''alice'', password = [],
             profile = Map.empty\<rparr>)
     = [\<lparr>email = str ''a@x.com'', username = str ''alice'', password = str ''$2b$10$.'',
         profile = Map.empty, userId = str ''u2''\<rparr>]"
  by (simp add: service_defs demo_defs string_defs)

text \<open>
  Away from the empty string the update keeps its frame, for every existing user and every
  update request: when the update fails, the store is unchanged; when it succeeds, the store
  is the old store with that user's record replaced, so the records of the other users are
  unchanged; the replaced record keeps its id; its email, username, password and each
  profile field are unchanged unless the update data supplies them, and a supplied email,
  username or profile field has the supplied value; a supplied non-empty password is stored
  as its hash, and an omitted password leaves the stored hash unchanged.
\<close>

theorem update_frame:
  assumes u: "findUserById s i = Inr u" and upd: "update env s i d = (res, s')"
  shows "(\<forall>e. res = Inl e \<longrightarrow> s' = s)
         \<and> (\<forall>r. res = Inr r \<longrightarrow>
              (\<exists>u'. s' = map (\<lambda>x. if userId x = i then u' else x) s
                 \<and> findUserById s' i = Inr u'
                 \<and> r = success (toResponseDto u') MsgUpdated
                 \<and> userId u' = i
                 \<and> email u' = (case email_opt d of None \<Rightarrow> email u | Some e \<Rightarrow> e)
                 \<and> username u' = (case username_opt d of None \<Rightarrow> username u | Some n \<Rightarrow> n)
                 \<and> (\<forall>k. profile u' k =
                          (case profile_opt d k of None \<Rightarrow> profile u k | Some v \<Rightarrow> Some v))
                 \<and> (password_opt d = None \<longrightarrow> password u' = password u)
                 \<and> (\<forall>p. password_opt d = Some p \<and> p \<noteq> []
                          \<longrightarrow> password u' = hashPassword env p)))"
proof (intro conjI allI impI)
  fix e
  assume "res = Inl e"
  with upd show "s' = s"
    by (simp add: update_failure)
next
  fix r
  assume "res = Inr r"
  with upd have ok: "update env s i d = (Inr r, s')"
    by simp
  let ?u = "assign u (rehashed env d)"
  from update_success [OF ok] u
  have r: "r = success (toResponseDto ?u) MsgUpdated"
    and s': "s' = map (\<lambda>x. if userId x = i then ?u else x) s"
    by auto
  from u have i: "userId ?u = i"
    by (simp add: findUserById_Inr)
  from findUserById_after_update [OF u i] s' have f: "findUserById s' i = Inr ?u"
    by simp
  have "\<forall>k. profile ?u k = (case profile_opt d k of None \<Rightarrow> profile u k | Some v \<Rightarrow> Some v)"
    by (simp add: map_add_def)
  with r s' i f
  show "\<exists>u'. s' = map (\<lambda>x. if userId x = i then u' else x) s
           \<and> findUserById s' i = Inr u'
           \<and> r = success (toResponseDto u') MsgUpdated
           \<and> userId u' = i
           \<and> email u' = (case email_opt d of None \<Rightarrow> email u | Some e \<Rightarrow> e)
           \<and> username u' = (case username_opt d of None \<Rightarrow> username u | Some n \<Rightarrow> n)
           \<and> (\<forall>k. profile u' k =
                    (case profile_opt d k of None \<Rightarrow> profile u k | Some v \<Rightarrow> Some v))
           \<and> (password_opt d = None \<longrightarrow> password u' = password u)
           \<and> (\<forall>p. password_opt d = Some p \<and> p \<noteq> [] \<longrightarrow> password u' = hashPassword env p)"
    by (intro exI [of _ ?u]) simp
qed

theorem update_frame_witness:
  "(\<exists>u'. snd (update demo_env [alice, bob] (str ''u3'')
               (no_update\<lparr>password_opt := Some (str ''new'')\<rparr>))
          = [alice, u']
       \<and> userId u' = str ''u3'' \<and> email u' = str ''b@x.com'' \<and> username u' = str ''bob''
       \<and> profile u' (str ''city'') = Some (str ''Hue'')
       \<and> password u' = str ''$2b$10$new.'')
   \<and> snd (update demo_env [alice, bob] (str ''u3'')
            (no_update\<lparr>email_opt := Some (str ''a@x.com'')\<rparr>))
      = [alice, bob]"
proof -
  let ?d = "no_update\<lparr>password_opt := Some (str ''new'')\<rparr>"
  let ?d2 = "no_update\<lparr>email_opt := Some (str ''a@x.com'')\<rparr>"
  let ?s = "[alice, bob]"
  have u: "findUserById ?s (str ''u3'') = Inr bob"
    by (simp add: findUserById_def repository_findOne_def demo_defs string_defs)
  have "\<exists>r. fst (update demo_env ?s (str ''u3'') ?d) = Inr r"
    by (simp add: service_defs demo_defs string_defs)
  then obtain r where ok: "update demo_env ?s (str ''u3'') ?d
      = (Inr r, snd (update demo_env ?s (str ''u3'') ?d))"
    by (metis prod.collapse)
  from update_frame [OF u ok] obtain u' where
    s': "snd (update demo_env ?s (str ''u3'') ?d)
           = map (\<lambda>x. if userId x = str ''u3'' then u' else x) ?s"
    and f: "userId u' = str ''u3''"
      "email u' = (case email_opt ?d of None \<Rightarrow> email bob | Some e \<Rightarrow> e)"
      "username u' = (case username_opt ?d of None \<Rightarrow> username bob | Some n \<Rightarrow> n)"
      "\<forall>k. profile u' k = (case profile_opt ?d k of None \<Rightarrow> profile bob k | Some v \<Rightarrow> Some v)"
      "\<forall>p. password_opt ?d = Some p \<and> p \<noteq> [] \<longrightarrow> password u' = hashPassword demo_env p"
    by blast
  from s' have "snd (update demo_env ?s (str ''u3'') ?d) = [alice, u']"
    by (simp add: demo_defs string_defs)
  moreover from f(5) have "password u' = str ''$2b$10$new.''"
    by (simp add: no_update_def hashPassword_def demo_env_def str_def)
  moreover from f(4) have "profile u' (str ''city'') = Some (str ''Hue'')"
    by (simp add: no_update_def bob_def)
  moreover from f(2,3) have "email u' = str ''b@x.com''" "username u' = str ''bob''"
    by (simp_all add: no_update_def bob_def)
  ultimately have 1: "\<exists>u'. snd (update demo_env ?s (str ''u3'') ?d) = [alice, u']
       \<and> userId u' = str ''u3'' \<and> email u' = str ''b@x.com'' \<and> username u' = str ''bob''
       \<and> profile u' (str ''city'') = Some (str ''Hue'')
       \<and> password u' = str ''$2b$10$new.''"
    using f(1) by blast
  have "\<exists>e. fst (update demo_env ?s (str ''u3'') ?d2) = Inl e"
    by (simp add: service_defs demo_defs string_defs)
  then obtain e where "update demo_env ?s (str ''u3'') ?d2
      = (Inl e, snd (update demo_env ?s (str ''u3'') ?d2))"
    by (metis prod.collapse)
  from update_frame [OF u this] have "snd (update demo_env ?s (str ''u3'') ?d2) = ?s"
    by blast
  with 1 show ?thesis
    by blast
qed

text \<open>
  C10: for every existing user, an update whose password field is the empty string skips the
  hashing (what is saved is the plain merge of the update data onto the record), the merge
  gives the record the empty password, and whenever the update succeeds the stored record
  has the empty string as its password; an update of the password alone does succeed on a
  store that satisfies its constraints.
\<close>

theorem update_empty_password:
  assumes u: "findUserById s i = Inr u" and p: "password_opt d = Some []"
  shows "updateUserData env s u d = repository_save s (assign u d)
         \<and> password (assign u d) = []
         \<and> (\<forall>r s'. update env s i d = (Inr r, s')
               \<longrightarrow> (\<exists>u'. findUserById s' i = Inr u' \<and> password u' = []))
         \<and> (store_ok s \<and> email_opt d = None \<and> username_opt d = None
               \<longrightarrow> (\<exists>r s'. update env s i d = (Inr r, s')))"
proof (intro conjI allI impI)
  from p have h: "rehashed env d = d"
    by (simp add: rehashed_def)
  show "updateUserData env s u d = repository_save s (assign u d)"
    by (simp add: updateUserData_rehashed h)
  show "password (assign u d) = []"
    using p by (simp add: assign_def)
  {
    fix r s'
    assume "update env s i d = (Inr r, s')"
    from update_success [OF this] u
    have s': "s' = map (\<lambda>r. if userId r = i then assign u (rehashed env d) else r) s"
      by auto
    from u have "userId (assign u (rehashed env d)) = i"
      by (simp add: findUserById_Inr)
    from findUserById_after_update [OF u this] s' p
    show "\<exists>u'. findUserById s' i = Inr u' \<and> password u' = []"
      by auto
  }
  {
    assume "store_ok s \<and> email_opt d = None \<and> username_opt d = None"
    with update_result [OF _ u, of d env]
    show "\<exists>r s'. update env s i d = (Inr r, s')"
      by simp
  }
qed

theorem update_empty_password_witness:
  "updateUserData demo_env [alice, bob] bob (no_update\<lparr>password_opt := Some []\<rparr>)
     = repository_save [alice, bob] (bob\<lparr>password := []\<rparr>)
   \<and> (\<exists>r s' u'. update demo_env [alice, bob] (str ''u3'') (no_update\<lparr>password_opt := Some []\<rparr>)
                  = (Inr r, s')
          \<and> findUserById s' (str ''u3'') = Inr u' \<and> password u' = [])"
proof -
  let ?d = "no_update\<lparr>password_opt := Some []\<rparr>"
  have u: "findUserById [alice, bob] (str ''u3'') = Inr bob"
    by (simp add: findUserById_def repository_findOne_def demo_defs string_defs)
  have p: "password_opt ?d = Some []"
    by (simp add: no_update_def)
  have ok: "store_ok [alice, bob] \<and> email_opt ?d = None \<and> username_opt ?d = None"
    by (simp add: store_ok_def demo_defs string_defs)
  have a: "assign bob ?d = bob\<lparr>password := []\<rparr>"
    by (simp add: assign_def no_update_def)
  from update_empty_password [OF u p, of demo_env] ok a show ?thesis
    by metis
qed

text \<open>
  C9: for every id that is not in the store, remove, update and findOne fail with NotFound
  and the store is unchanged; for every id that is in the store, remove answers with the
  acknowledgment \<^verbatim>\<open>{deleted: true}\<close> and the store that is left is the old store without
  the record of that id.
\<close>

theorem remove_spec:
  "(i \<notin> userId ` set s \<longrightarrow>
      remove s i = (Inl (NotFoundException MsgUserNotFound), s)
      \<and> update env s i d = (Inl (NotFoundException MsgUserNotFound), s)
      \<and> findOne s i = Inl (NotFoundException MsgUserNotFound))
   \<and> (i \<in> userId ` set s \<longrightarrow>
      remove s i = (Inr (success (Deletion True) MsgDeleted), filter (\<lambda>r. userId r \<noteq> i) s)
      \<and> i \<notin> userId ` set (snd (remove s i))
      \<and> (\<forall>r\<in>set s. userId r \<noteq> i \<longrightarrow> r \<in> set (snd (remove s i))))"
proof (intro conjI impI)
  assume "i \<notin> userId ` set s"
  then have "findUserById s i = Inl (NotFoundException MsgUserNotFound)"
    by (simp add: findUserById_Inl)
  then show "remove s i = (Inl (NotFoundException MsgUserNotFound), s)"
    and "update env s i d = (Inl (NotFoundException MsgUserNotFound), s)"
    and "findOne s i = Inl (NotFoundException MsgUserNotFound)"
    by (simp_all add: remove_def update_def findOne_def)
next
  assume "i \<in> userId ` set s"
  then obtain u where u: "findUserById s i = Inr u"
    using findUserById_present by blast
  then have "userId u = i"
    by (simp add: findUserById_Inr)
  with u show r: "remove s i
      = (Inr (success (Deletion True) MsgDeleted), filter (\<lambda>r. userId r \<noteq> i) s)"
    by (simp add: remove_def repository_remove_def)
  then show "i \<notin> userId ` set (snd (remove s i))"
    and "\<forall>r\<in>set s. userId r \<noteq> i \<longrightarrow> r \<in> set (snd (remove s i))"
    by auto
qed

theorem remove_spec_witness:
  "remove [alice] (str ''u3'') = (Inl (NotFoundException MsgUserNotFound), [alice])
   \<and> update demo_env [alice] (str ''u3'') no_update
       = (Inl (NotFoundException MsgUserNotFound), [alice])
   \<and> findOne [alice] (str ''u3'') = Inl (NotFoundException MsgUserNotFound)
   \<and> remove [alice, bob] (str ''u1'') = (Inr (success (Deletion True) MsgDeleted), [bob])"
proof -
  have 1: "str ''u3'' \<notin> userId ` set [alice]"
    by (simp add: demo_defs string_defs)
  have 2: "str ''u1'' \<in> userId ` set [alice, bob]"
    by (simp add: demo_defs string_defs)
  have 3: "filter (\<lambda>r. userId r \<noteq> str ''u1'') [alice, bob] = [bob]"
    by (simp add: demo_defs string_defs)
  from 1 remove_spec [of "str ''u3''" "[alice]" demo_env no_update]
  have "remove [alice] (str ''u3'') = (Inl (NotFoundException MsgUserNotFound), [alice])
   \<and> update demo_env [alice] (str ''u3'') no_update
       = (Inl (NotFoundException MsgUserNotFound), [alice])
   \<and> findOne [alice] (str ''u3'') = Inl (NotFoundException MsgUserNotFound)"
    by blast
  moreover from 2 3 remove_spec [of "str ''u1''" "[alice, bob]" demo_env no_update]
  have "remove [alice, bob] (str ''u1'') = (Inr (success (Deletion True) MsgDeleted), [bob])"
    by simp
  ultimately show ?thesis
    by blast
qed

section \<open>Claims about the guard\<close>

text \<open>
  C4, as stated, fails for a header with more than two parts: only the first two parts of
  the split are looked at. The header \<^verbatim>\<open>Bearer good junk\<close> is not of the form
  \<^verbatim>\<open>Bearer <token>\<close>, and what follows \<^verbatim>\<open>Bearer\<close> does not verify, but the guard verifies
  \<^verbatim>\<open>good\<close> alone and lets the request through.
\<close>

theorem canActivate_trailing_counterexample:
  "verifyAsync demo_jwt_env (str ''good junk'') (JWT_SECRET demo_jwt_env) = Inl JsonWebTokenError
   \<and> canActivate demo_jwt_env (with_authorization (str ''Bearer good junk''))
     = Inr (True, \<lparr>headers = [str ''authorization'' \<mapsto> str ''Bearer good junk''],
                   user = Some (str ''u1'')\<rparr>)"
  by (simp add: guard_defs string_defs)

text \<open>
  C4 (amended): the guard fails with Unauthorized for every invocation except the one where
  the Authorization header is \<^verbatim>\<open>Bearer\<close>, one space, a non-empty token without a space,
  and then either nothing or a space and anything, and that token verifies against the
  configured secret. So it fails when the header is absent or empty, when its first part is
  not \<^verbatim>\<open>Bearer\<close>, when the second part is missing or empty, and when the verification of
  the second part fails for whatever reason. Every failure is the same Unauthorized error,
  and the handler does not run.
\<close>

theorem canActivate_unauthorized:
  "(canActivate env request = Inl UnauthorizedException \<longleftrightarrow>
      \<not> (\<exists>token rest payload.
            headers request (str ''authorization'') = Some (str ''Bearer'' @ space # token @ rest)
            \<and> token \<noteq> [] \<and> space \<notin> set token \<and> (rest = [] \<or> hd rest = space)
            \<and> verifyAsync env token (JWT_SECRET env) = Inr payload))
   \<and> (\<forall>e. canActivate env request = Inl e \<longrightarrow>
          e = UnauthorizedException \<and> guarded env handler request = Inl UnauthorizedException)"
proof (intro conjI allI impI)
  show "canActivate env request = Inl UnauthorizedException \<longleftrightarrow>
      \<not> (\<exists>token rest payload.
            headers request (str ''authorization'') = Some (str ''Bearer'' @ space # token @ rest)
            \<and> token \<noteq> [] \<and> space \<notin> set token \<and> (rest = [] \<or> hd rest = space)
            \<and> verifyAsync env token (JWT_SECRET env) = Inr payload)"
  proof (cases "canActivate env request")
    case (Inl e)
    have "\<not> (\<exists>token rest payload.
            headers request (str ''authorization'') = Some (str ''Bearer'' @ space # token @ rest)
            \<and> token \<noteq> [] \<and> space \<notin> set token \<and> (rest = [] \<or> hd rest = space)
            \<and> verifyAsync env token (JWT_SECRET env) = Inr payload)"
    proof
      assume "\<exists>token rest payload.
            headers request (str ''authorization'') = Some (str ''Bearer'' @ space # token @ rest)
            \<and> token \<noteq> [] \<and> space \<notin> set token \<and> (rest = [] \<or> hd rest = space)
            \<and> verifyAsync env token (JWT_SECRET env) = Inr payload"
      then obtain token rest payload where
        "headers request (str ''authorization'') = Some (str ''Bearer'' @ space # token @ rest)
            \<and> token \<noteq> [] \<and> space \<notin> set token \<and> (rest = [] \<or> hd rest = space)
            \<and> verifyAsync env token (JWT_SECRET env) = Inr payload"
        by blast
      then have "canActivate env request = Inr (True, request\<lparr>user := Some payload\<rparr>)"
        using canActivate_Inr [of env request "(True, request\<lparr>user := Some payload\<rparr>)"]
        by blast
      with Inl show False
        by simp
    qed
    with Inl canActivate_Inl [OF Inl] show ?thesis
      by simp
  next
    case (Inr r)
    from iffD1 [OF canActivate_Inr Inr]
    have "\<exists>token rest payload.
            headers request (str ''authorization'') = Some (str ''Bearer'' @ space # token @ rest)
            \<and> token \<noteq> [] \<and> space \<notin> set token \<and> (rest = [] \<or> hd rest = space)
            \<and> verifyAsync env token (JWT_SECRET env) = Inr payload"
      by blast
    with Inr show ?thesis
      by simp
  qed
next
  fix e
  assume e: "canActivate env request = Inl e"
  then show "e = UnauthorizedException"
    by (rule canActivate_Inl)
  with e show "guarded env handler request = Inl UnauthorizedException"
    by (simp add: guarded_def)
qed

theorem canActivate_unauthorized_witness:
  "guarded demo_jwt_env user no_authorization = Inl UnauthorizedException
   \<and> guarded demo_jwt_env user (with_authorization []) = Inl UnauthorizedException
   \<and> guarded demo_jwt_env user (with_authorization (str ''Basic good'')) = Inl UnauthorizedException
   \<and> guarded demo_jwt_env user (with_authorization (str ''Bearer'')) = Inl UnauthorizedException
   \<and> guarded demo_jwt_env user (with_authorization (str ''Bearer  good'')) = Inl UnauthorizedException
   \<and> guarded demo_jwt_env user (with_authorization (str ''Bearer old'')) = Inl UnauthorizedException
   \<and> guarded demo_jwt_env user (with_authorization (str ''Bearer forged'')) = Inl UnauthorizedException"
proof -
  have "canActivate demo_jwt_env no_authorization = Inl UnauthorizedException"
    "canActivate demo_jwt_env (with_authorization []) = Inl UnauthorizedException"
    "canActivate demo_jwt_env (with_authorization (str ''Basic good'')) = Inl UnauthorizedException"
    "canActivate demo_jwt_env (with_authorization (str ''Bearer'')) = Inl UnauthorizedException"
    "canActivate demo_jwt_env (with_authorization (str ''Bearer  good'')) = Inl UnauthorizedException"
    "canActivate demo_jwt_env (with_authorization (str ''Bearer old'')) = Inl UnauthorizedException"
    "canActivate demo_jwt_env (with_authorization (str ''Bearer forged'')) = Inl UnauthorizedException"
    by (simp_all add: guard_defs string_defs)
  with canActivate_unauthorized [of demo_jwt_env _ user] show ?thesis
    by blast
qed

text \<open>
  C5: for every request whose Authorization header is \<^verbatim>\<open>Bearer\<close>, one space and a non-empty
  token without a space, the token verifying against the configured secret, the guard
  returns true and the request it leaves has the decoded payload as its user, everything
  else unchanged; the handler runs on that request.
\<close>

theorem canActivate_accepts:
  assumes "headers request (str ''authorization'') = Some (str ''Bearer'' @ space # token)"
    and "token \<noteq> []" and "space \<notin> set token"
    and "verifyAsync env token (JWT_SECRET env) = Inr payload"
  shows "canActivate env request = Inr (True, request\<lparr>user := Some payload\<rparr>)
         \<and> user (request\<lparr>user := Some payload\<rparr>) = Some payload
         \<and> headers (request\<lparr>user := Some payload\<rparr>) = headers request
         \<and> guarded env handler request = Inr (handler (request\<lparr>user := Some payload\<rparr>))"
proof -
  from assms have "canActivate env request = Inr (True, request\<lparr>user := Some payload\<rparr>)"
    unfolding canActivate_Inr by (intro exI [of _ token] exI [of _ "[]"] exI [of _ payload]) simp
  then show ?thesis
    by (simp add: guarded_def)
qed

theorem canActivate_accepts_witness:
  "canActivate demo_jwt_env (with_authorization (str ''Bearer good''))
     = Inr (True, \<lparr>headers = [str ''authorization'' \<mapsto> str ''Bearer good''],
                   user = Some (str ''u1'')\<rparr>)
   \<and> guarded demo_jwt_env user (with_authorization (str ''Bearer good'')) = Inr (Some (str ''u1''))"
proof -
  have h: "headers (with_authorization (str ''Bearer good'')) (str ''authorization'')
      = Some (str ''Bearer'' @ space # str ''good'')"
    by (simp add: with_authorization_def string_defs)
  have t: "str ''good'' \<noteq> []" "space \<notin> set (str ''good'')"
    by (simp_all add: string_defs)
  have v: "verifyAsync demo_jwt_env (str ''good'') (JWT_SECRET demo_jwt_env) = Inr (str ''u1'')"
    by (simp add: demo_jwt_env_def string_defs)
  from canActivate_accepts [OF h t v, of user] show ?thesis
    by (simp add: with_authorization_def)
qed

end
